theory Spec2Isabelle
  imports Complex_Main "HOL-Library.Word"
begin

section \<open>Strings and numbers of the source language\<close>

text \<open>
  A JavaScript string is a sequence of UTF-16 code units. \<open>utf16\<close> embeds an ASCII
  literal. Numbers are modelled as reals: rounding, signed zeros and NaN are not modelled.
  The wrap width is the one number the documentation allows to be \<open>Infinity\<close> (its
  default), so it has a type of its own with the two comparisons the source applies to it.
\<close>

type_synonym jsstring = "16 word list"

definition utf16 :: "string \<Rightarrow> jsstring" where
  "utf16 s = map of_char s"

datatype wrap_width = Finite real | Infinity

text \<open>\<^verbatim>\<open>w <= wrapWidth\<close> and \<^verbatim>\<open>w > wrapWidth\<close> for a finite number \<open>w\<close>.\<close>

fun le_wrap :: "real \<Rightarrow> wrap_width \<Rightarrow> bool" where
  "le_wrap w (Finite W) = (w \<le> W)"
| "le_wrap w Infinity = True"

fun gt_wrap :: "real \<Rightarrow> wrap_width \<Rightarrow> bool" where
  "gt_wrap w (Finite W) = (w > W)"
| "gt_wrap w Infinity = False"

text \<open>\<^verbatim>\<open>Math.trunc\<close>: rounding towards zero.\<close>

definition trunc :: "real \<Rightarrow> real" where
  "trunc v = (if 0 \<le> v then of_int \<lfloor>v\<rfloor> else of_int \<lceil>v\<rceil>)"

text \<open>
  \<^verbatim>\<open>s.split(re)\<close> for a regular expression \<open>re\<close> that matches exactly one code unit of a
  class \<open>p\<close>: the pieces between the matches, in order. The result is never empty (the
  first branch of the \<open>case\<close> is never taken, see \<open>split_on_not_Nil\<close>).
\<close>

fun split_on :: "('a \<Rightarrow> bool) \<Rightarrow> 'a list \<Rightarrow> 'a list list" where
  "split_on p [] = [[]]"
| "split_on p (c # cs) =
     (if p c then [] # split_on p cs
      else (case split_on p cs of [] \<Rightarrow> [[c]] | w # ws \<Rightarrow> (c # w) # ws))"

text \<open>The class \<^verbatim>\<open>\n\<close>.\<close>

definition isNewline :: "16 word \<Rightarrow> bool" where
  "isNewline c \<longleftrightarrow> c = 0x0A"

text \<open>The class \<^verbatim>\<open>\s\<close>: the white space and line terminator code points of ECMAScript.\<close>

definition isWhiteSpace :: "16 word \<Rightarrow> bool" where
  "isWhiteSpace c \<longleftrightarrow>
     c = 0x09 \<or> c = 0x0A \<or> c = 0x0B \<or> c = 0x0C \<or> c = 0x0D \<or> c = 0x20 \<or> c = 0xA0 \<or>
     c = 0x1680 \<or> (0x2000 \<le> c \<and> c \<le> 0x200A) \<or> c = 0x2028 \<or> c = 0x2029 \<or>
     c = 0x202F \<or> c = 0x205F \<or> c = 0x3000 \<or> c = 0xFEFF"

text \<open>The code unit of the space in the template \<^verbatim>\<open>`${accumulator.line} ${word}`\<close>.\<close>

definition space :: "16 word" where
  "space = 0x20"

section \<open>The iterable combinators used by the pipeline\<close>

text \<open>
  \<^verbatim>\<open>scanFn(f, initial)\<close> yields the running accumulators, one for each element (the
  initial value itself is not yielded; the lines emitted would be the same if it were, see
  \<open>emitted_initial\<close>); \<^verbatim>\<open>pushFn(v)\<close> appends one element; \<^verbatim>\<open>pairwise\<close> yields the pairs
  of adjacent elements.
  \<^verbatim>\<open>mapFn\<close>, \<^verbatim>\<open>filterFn\<close>, \<^verbatim>\<open>concatMapFn\<close> and \<^verbatim>\<open>foldFn\<close> are \<open>map\<close>, \<open>filter\<close>,
  \<open>concat \<circ> map\<close> and \<open>foldl\<close>.
\<close>

fun scan :: "('u \<Rightarrow> 't \<Rightarrow> 'u) \<Rightarrow> 'u \<Rightarrow> 't list \<Rightarrow> 'u list" where
  "scan f a [] = []"
| "scan f a (x # xs) = f a x # scan f (f a x) xs"

definition push :: "'a \<Rightarrow> 'a list \<Rightarrow> 'a list" where
  "push v xs = xs @ [v]"

fun pairwise :: "'a list \<Rightarrow> ('a \<times> 'a) list" where
  "pairwise (x # y # ys) = (x, y) # pairwise (y # ys)"
| "pairwise _ = []"

section \<open>Measuring and wrapping (wrap.ts)\<close>

text \<open>The platform's \<^verbatim>\<open>TextMetrics\<close>; only \<^verbatim>\<open>actualBoundingBoxLeft\<close> is tested for absence.\<close>

record TextMetrics =
  tm_width :: real
  actualBoundingBoxLeft :: "real option"
  actualBoundingBoxRight :: real
  actualBoundingBoxAscent :: real
  actualBoundingBoxDescent :: real

text \<open>
  The drawing context enters the wrapper only through \<^verbatim>\<open>context.measureText\<close>, so the
  field \<open>opt_context\<close> holds that method. The fields of the option records carry the
  prefix \<open>opt_\<close>, since the renderer has fields of the same names.
\<close>

record MeasureLineOptions =
  opt_context :: "jsstring \<Rightarrow> TextMetrics"
  opt_text :: jsstring
  opt_fontSize :: real
  opt_lineHeight :: real

record LineMetrics =
  lm_left :: real
  lm_right :: real
  lm_top :: real
  lm_bottom :: real
  lm_width :: real

definition measureLine :: "'a MeasureLineOptions_scheme \<Rightarrow> LineMetrics" where
  "measureLine options =
     (let metrics = opt_context options (opt_text options) in
      case actualBoundingBoxLeft metrics of
        None \<Rightarrow>
          \<lparr>lm_left = tm_width metrics + opt_fontSize options * 2,
           lm_right = tm_width metrics + opt_fontSize options * 2,
           lm_top = opt_lineHeight options + opt_fontSize options * 2,
           lm_bottom = opt_lineHeight options + opt_fontSize options * 2,
           lm_width = tm_width metrics\<rparr>
      | Some bbLeft \<Rightarrow>
          \<lparr>lm_left = trunc bbLeft + 1,
           lm_right = trunc (actualBoundingBoxRight metrics) + 1,
           lm_top = trunc (actualBoundingBoxAscent metrics) + 1,
           lm_bottom = trunc (actualBoundingBoxDescent metrics) + 1,
           lm_width = tm_width metrics\<rparr>)"

record WrapTextOptions = MeasureLineOptions +
  opt_wrapWidth :: wrap_width

record WrappedText =
  wt_lines :: "jsstring list"
  wt_left :: real
  wt_right :: real
  wt_top :: real
  wt_bottom :: real

text \<open>\<open>appendWrappedTextLine wrappedText (text, metrics) lineHeight\<close>.\<close>

definition appendWrappedTextLine ::
  "WrappedText \<Rightarrow> jsstring \<times> LineMetrics \<Rightarrow> real \<Rightarrow> WrappedText" where
  "appendWrappedTextLine wrappedText entry lh =
     \<lparr>wt_lines = wt_lines wrappedText @ [fst entry],
      wt_left = max (wt_left wrappedText) (lm_left (snd entry)),
      wt_right = max (wt_right wrappedText) (lm_right (snd entry)),
      wt_top = max (wt_top wrappedText)
                 (lm_top (snd entry) - lh * real (length (wt_lines wrappedText))),
      wt_bottom = max (wt_bottom wrappedText)
                    (lm_bottom (snd entry) + lh * real (length (wt_lines wrappedText)))\<rparr>"

record WrapTextAccumulator =
  acc_line :: jsstring
  acc_metrics :: LineMetrics
  newLine :: bool

definition zeroMetrics :: LineMetrics where
  "zeroMetrics = \<lparr>lm_left = 0, lm_right = 0, lm_top = 0, lm_bottom = 0, lm_width = 0\<rparr>"

definition first :: WrapTextAccumulator where
  "first = \<lparr>acc_line = [], acc_metrics = zeroMetrics, newLine = False\<rparr>"

definition last_acc :: WrapTextAccumulator where
  "last_acc = \<lparr>acc_line = [], acc_metrics = zeroMetrics, newLine = True\<rparr>"

text \<open>The function given to \<^verbatim>\<open>scanFn\<close>.\<close>

definition wrapStep ::
  "WrapTextOptions \<Rightarrow> WrapTextAccumulator \<Rightarrow> jsstring \<Rightarrow> WrapTextAccumulator" where
  "wrapStep options accumulator word =
     (let line = (if acc_line accumulator = [] then word
                  else acc_line accumulator @ [space] @ word);
          metrics = measureLine (options\<lparr>opt_text := line\<rparr>)
      in if gt_wrap (lm_width metrics) (opt_wrapWidth options) \<and> line \<noteq> word
         then \<lparr>acc_line = word,
               acc_metrics = measureLine (options\<lparr>opt_text := word\<rparr>),
               newLine = True\<rparr>
         else \<lparr>acc_line = line, acc_metrics = metrics, newLine = False\<rparr>)"

text \<open>The function given to \<^verbatim>\<open>concatMapFn\<close>: the lines of one paragraph.\<close>

definition wrapParagraph ::
  "WrapTextOptions \<Rightarrow> jsstring \<times> LineMetrics \<Rightarrow> (jsstring \<times> LineMetrics) list" where
  "wrapParagraph options para =
     (if le_wrap (lm_width (snd para)) (opt_wrapWidth options) then [para]
      else map (\<lambda>(a, b). (acc_line a, acc_metrics a))
             (filter (\<lambda>(a, b). newLine b)
               (pairwise (push last_acc
                 (scan (wrapStep options) first (split_on isWhiteSpace (fst para)))))))"

text \<open>The chain up to the fold: every emitted line with its metrics.\<close>

definition wrapLines :: "WrapTextOptions \<Rightarrow> (jsstring \<times> LineMetrics) list" where
  "wrapLines options =
     concat (map (wrapParagraph options)
       (map (\<lambda>line. (line, measureLine (options\<lparr>opt_text := line\<rparr>)))
         (split_on isNewline (opt_text options))))"

definition emptyWrappedText :: WrappedText where
  "emptyWrappedText = \<lparr>wt_lines = [], wt_left = 0, wt_right = 0, wt_top = 0, wt_bottom = 0\<rparr>"

definition wrapText :: "WrapTextOptions \<Rightarrow> WrappedText" where
  "wrapText options =
     foldl (\<lambda>wrappedText entry. appendWrappedTextLine wrappedText entry (opt_lineHeight options))
       emptyWrappedText (wrapLines options)"


section \<open>The renderer (renderer.ts, style.ts)\<close>

subsection \<open>Types of the engine\<close>

datatype FontStyle = FontStyle_Normal | FontStyle_Italic | FontStyle_Oblique

datatype TextAlign =
  TextAlign_Left | TextAlign_Right | TextAlign_Center | TextAlign_End | TextAlign_Start

datatype BaseAlign =
  BaseAlign_Alphabetic | BaseAlign_Bottom | BaseAlign_Hanging | BaseAlign_Ideographic
  | BaseAlign_Middle | BaseAlign_Top

text \<open>
  \<^verbatim>\<open>Color\<close> and \<^verbatim>\<open>Vector\<close> are objects: a value of the model carries the identity of
  the object (\<open>color_ref\<close>, \<open>vector_ref\<close>) beside its components, and \<^verbatim>\<open>===\<close> on two
  objects compares the identities only.
\<close>

record Color =
  color_ref :: nat
  color_r :: real
  color_g :: real
  color_b :: real
  color_a :: real

record Vector =
  vector_ref :: nat
  vector_x :: real
  vector_y :: real

definition same_Color :: "Color \<Rightarrow> Color \<Rightarrow> bool" where
  "same_Color c d \<longleftrightarrow> color_ref c = color_ref d"

definition same_Vector :: "Vector \<Rightarrow> Vector \<Rightarrow> bool" where
  "same_Vector u v \<longleftrightarrow> vector_ref u = vector_ref v"

subsection \<open>style.ts\<close>

fun lookupTextAlign :: "TextAlign \<Rightarrow> string" where
  "lookupTextAlign TextAlign_Left = ''left''"
| "lookupTextAlign TextAlign_Right = ''right''"
| "lookupTextAlign TextAlign_Center = ''center''"
| "lookupTextAlign TextAlign_End = ''end''"
| "lookupTextAlign TextAlign_Start = ''start''"

fun lookupBaseAlign :: "BaseAlign \<Rightarrow> string" where
  "lookupBaseAlign BaseAlign_Alphabetic = ''alphabetic''"
| "lookupBaseAlign BaseAlign_Bottom = ''bottom''"
| "lookupBaseAlign BaseAlign_Hanging = ''hanging''"
| "lookupBaseAlign BaseAlign_Ideographic = ''ideographic''"
| "lookupBaseAlign BaseAlign_Middle = ''middle''"
| "lookupBaseAlign BaseAlign_Top = ''top''"

fun lookupFontStyle :: "FontStyle \<Rightarrow> string" where
  "lookupFontStyle FontStyle_Italic = ''italic''"
| "lookupFontStyle FontStyle_Normal = ''normal''"
| "lookupFontStyle FontStyle_Oblique = ''oblique''"

definition lookupFontWeight :: "bool \<Rightarrow> string" where
  "lookupFontWeight b = (if b then ''bold'' else ''normal'')"

subsection \<open>The attribute snapshot and the renderer object\<close>

text \<open>
  The fifteen constructor parameters of \<^verbatim>\<open>TextRenderer\<close>, which are also the fifteen
  parameters of \<^verbatim>\<open>updateIfRequired\<close> and the fifteen public fields of \<^verbatim>\<open>Text\<close>.
\<close>

record Attributes =
  attr_text :: jsstring
  fontFamily :: jsstring
  fontStyle :: FontStyle
  bold :: bool
  fontSize :: real
  textAlign :: TextAlign
  baseAlign :: BaseAlign
  lineHeight :: "real option"
  wrapWidth :: wrap_width
  color :: Color
  outlineColor :: Color
  outlineWidth :: real
  shadowColor :: Color
  shadowOffset :: Vector
  shadowBlurRadius :: real

text \<open>
  A renderer is an object too: \<open>renderer_ref\<close> is its identity. The type of the cache
  entry differs between the two revisions of the class, so it is a parameter.
\<close>

record 'c TextRenderer = Attributes +
  renderer_ref :: nat
  cache :: "'c option"

text \<open>
  A canvas element is its identity and its size. What is drawn on it (\<^verbatim>\<open>translate\<close>,
  \<^verbatim>\<open>strokeText\<close>, \<^verbatim>\<open>fillText\<close>, the shadow composite) is not modelled, and neither is the
  conversion of an assigned width or height to an integer.
\<close>

record HTMLCanvasElement =
  canvas_id :: nat
  width :: real
  height :: real

text \<open>The cache entry of renderer.ts.\<close>

record CacheEntry =
  cache_canvas :: HTMLCanvasElement
  cache_left :: real
  cache_top :: real



subsection \<open>The platform\<close>

datatype css_color = Transparent | Rgba real real real real

text \<open>\<^verbatim>\<open>Color.toString()\<close>, kept structured.\<close>

definition toString :: "Color \<Rightarrow> css_color" where
  "toString c = Rgba (color_r c) (color_g c) (color_b c) (color_a c)"

text \<open>
  The properties \<^verbatim>\<open>setCanvasTextProperties\<close> assigns to a drawing context. The font
  string \<^verbatim>\<open>`${style} ${weight} ${size}px ${family}`\<close> is kept as its four components.
\<close>

record ContextProperties =
  ctx_textAlign :: string
  ctx_textBaseline :: string
  ctx_font :: "string \<times> string \<times> real \<times> jsstring"
  ctx_lineWidth :: real
  ctx_strokeStyle :: css_color
  ctx_fillStyle :: css_color

text \<open>
  What the renderer needs from the browser: whether \<^verbatim>\<open>getContext("2d")\<close> of the
  \<open>n\<close>-th canvas element created returns a context (or \<^verbatim>\<open>null\<close>), and
  \<^verbatim>\<open>measureText\<close> of a context with the given text properties.
\<close>

record platform =
  getContext :: "nat \<Rightarrow> bool"
  measureText :: "ContextProperties \<Rightarrow> jsstring \<Rightarrow> TextMetrics"

record draw_call =
  dc_canvas :: HTMLCanvasElement
  dc_x :: real
  dc_y :: real

text \<open>
  The mutable world outside the renderer: how many renderer objects have been constructed
  (the supply of identities), how many canvas elements \<^verbatim>\<open>document.createElement\<close> has
  created, and the calls of \<^verbatim>\<open>ex.drawImage\<close>, oldest first.
\<close>

record world =
  renderers :: nat
  created :: nat
  drawn :: "draw_call list"

text \<open>The error \<^verbatim>\<open>notNull\<close> throws.\<close>

datatype error = NotNull

text \<open>\<^verbatim>\<open>document.createElement("canvas")\<close>: a new element of the default size.\<close>

definition createElement :: "world \<Rightarrow> HTMLCanvasElement \<times> world" where
  "createElement w =
     (\<lparr>canvas_id = created w, width = 300, height = 150\<rparr>, w\<lparr>created := created w + 1\<rparr>)"


subsection \<open>TextRenderer\<close>

definition setCanvasTextProperties :: "'a Attributes_scheme \<Rightarrow> ContextProperties" where
  "setCanvasTextProperties this =
     \<lparr>ctx_textAlign = lookupTextAlign (textAlign this),
      ctx_textBaseline = lookupBaseAlign (baseAlign this),
      ctx_font = (lookupFontStyle (fontStyle this), lookupFontWeight (bold this),
                  fontSize this, fontFamily this),
      ctx_lineWidth = outlineWidth this * 2,
      ctx_strokeStyle =
        (if outlineWidth this = 0 then Transparent else toString (outlineColor this)),
      ctx_fillStyle = toString (color this)\<rparr>"

text \<open>The condition of \<^verbatim>\<open>updateIfRequired\<close>: \<^verbatim>\<open>===\<close> on each of the fifteen fields.\<close>

definition unchanged :: "'a Attributes_scheme \<Rightarrow> 'b Attributes_scheme \<Rightarrow> bool" where
  "unchanged args this \<longleftrightarrow>
     attr_text args = attr_text this \<and>
     fontFamily args = fontFamily this \<and>
     fontStyle args = fontStyle this \<and>
     bold args = bold this \<and>
     fontSize args = fontSize this \<and>
     textAlign args = textAlign this \<and>
     baseAlign args = baseAlign this \<and>
     lineHeight args = lineHeight this \<and>
     wrapWidth args = wrapWidth this \<and>
     same_Color (color args) (color this) \<and>
     same_Color (outlineColor args) (outlineColor this) \<and>
     outlineWidth args = outlineWidth this \<and>
     same_Color (shadowColor args) (shadowColor this) \<and>
     same_Vector (shadowOffset args) (shadowOffset this) \<and>
     shadowBlurRadius args = shadowBlurRadius this"

text \<open>\<^verbatim>\<open>new TextRenderer(...)\<close>: a new object with an empty cache.\<close>

definition new_TextRenderer :: "'a Attributes_scheme \<Rightarrow> world \<Rightarrow> 'c TextRenderer \<times> world" where
  "new_TextRenderer args w =
     (\<lparr>attr_text = attr_text args, fontFamily = fontFamily args, fontStyle = fontStyle args,
       bold = bold args, fontSize = fontSize args, textAlign = textAlign args,
       baseAlign = baseAlign args, lineHeight = lineHeight args, wrapWidth = wrapWidth args,
       color = color args, outlineColor = outlineColor args,
       outlineWidth = outlineWidth args, shadowColor = shadowColor args,
       shadowOffset = shadowOffset args, shadowBlurRadius = shadowBlurRadius args,
       renderer_ref = renderers w, cache = None\<rparr>,
      w\<lparr>renderers := renderers w + 1\<rparr>)"

definition updateIfRequired ::
  "'c TextRenderer \<Rightarrow> 'a Attributes_scheme \<Rightarrow> world \<Rightarrow> 'c TextRenderer \<times> world" where
  "updateIfRequired this args w =
     (if unchanged args this then (this, w) else new_TextRenderer args w)"

text \<open>The call of \<^verbatim>\<open>wrapText\<close> that both revisions make on the first context.\<close>

definition wrapped :: "platform \<Rightarrow> 'a Attributes_scheme \<Rightarrow> WrappedText" where
  "wrapped P this =
     wrapText \<lparr>opt_context = measureText P (setCanvasTextProperties this),
               opt_text = attr_text this,
               opt_fontSize = fontSize this,
               opt_lineHeight = (case lineHeight this of None \<Rightarrow> fontSize this | Some h \<Rightarrow> h),
               opt_wrapWidth = wrapWidth this\<rparr>"

text \<open>
  renderer.ts: the body of \<^verbatim>\<open>if (this.cache == null)\<close> in \<^verbatim>\<open>renderImage\<close>, up to the
  value assigned to \<^verbatim>\<open>this.cache\<close>. \<^verbatim>\<open>notNull\<close> throws when \<^verbatim>\<open>getContext\<close> returns
  \<^verbatim>\<open>null\<close>. Without a shadow \<^verbatim>\<open>canvas2\<close> is \<^verbatim>\<open>canvas\<close> itself, so the assignments to
  \<^verbatim>\<open>canvas2.width\<close> and \<^verbatim>\<open>canvas2.height\<close> resize \<^verbatim>\<open>canvas\<close>.
\<close>

definition buildCache ::
  "platform \<Rightarrow> world \<Rightarrow> 'a Attributes_scheme \<Rightarrow> (error + CacheEntry) \<times> world" where
  "buildCache P w this =
     (let (canvas, w1) = createElement w in
      if \<not> getContext P (canvas_id canvas) then (Inl NotNull, w1)
      else
        (let wt = wrapped P this;
             left = wt_left wt; right = wt_right wt; top = wt_top wt; bottom = wt_bottom wt;
             (canvas2, w2) =
               (if color_a (shadowColor this) = 0 then (canvas, w1) else createElement w1);
             canvas2 = canvas2\<lparr>width := left + right, height := top + bottom\<rparr>
         in if canvas_id canvas2 \<noteq> canvas_id canvas \<and> \<not> getContext P (canvas_id canvas2)
            then (Inl NotNull, w2)
            else if canvas_id canvas = canvas_id canvas2
            then (Inr \<lparr>cache_canvas = canvas2, cache_left = left, cache_top = top\<rparr>, w2)
            else
              (let canvas = canvas\<lparr>width := width canvas2 + shadowBlurRadius this * 4,
                                   height := height canvas2 + shadowBlurRadius this * 4\<rparr>
               in (Inr \<lparr>cache_canvas = canvas,
                        cache_left = left + shadowBlurRadius this * 2,
                        cache_top = top + shadowBlurRadius this * 2\<rparr>, w2))))"


subsection \<open>The later revision of TextRenderer: updateCache\<close>




subsection \<open>The Text node\<close>



section \<open>Definitions used to state the properties\<close>

text \<open>The advance width the wrapper obtains for a candidate string.\<close>

definition measuredWidth :: "WrapTextOptions \<Rightarrow> jsstring \<Rightarrow> real" where
  "measuredWidth options s = lm_width (measureLine (options\<lparr>opt_text := s\<rparr>))"

text \<open>
  The greedy word packer as the specification words it. \<open>joinWord\<close> extends a candidate
  by a word: joined by a single space, or the word alone if the candidate is empty.
  \<open>greedy_pack wd W candidate words\<close> for the width function \<open>wd\<close>: if the extended candidate measures wider than
  \<open>W\<close> and the candidate before adding was non-empty, the candidate is closed as a line
  and the word starts a new candidate; otherwise the extended candidate is accepted; the
  final candidate is flushed as the last line.
\<close>

definition joinWord :: "jsstring \<Rightarrow> jsstring \<Rightarrow> jsstring" where
  "joinWord candidate word = (if candidate = [] then word else candidate @ [space] @ word)"

fun greedy_pack ::
  "(jsstring \<Rightarrow> real) \<Rightarrow> wrap_width \<Rightarrow> jsstring \<Rightarrow> jsstring list \<Rightarrow> jsstring list" where
  "greedy_pack wd W candidate [] = [candidate]"
| "greedy_pack wd W candidate (word # words) =
     (if gt_wrap (wd (joinWord candidate word)) W \<and> candidate \<noteq> []
      then candidate # greedy_pack wd W word words
      else greedy_pack wd W (joinWord candidate word) words)"

text \<open>The last three stages of the pipeline of one paragraph, on a list of accumulators.\<close>

definition emitted :: "WrapTextAccumulator list \<Rightarrow> (jsstring \<times> LineMetrics) list" where
  "emitted accs =
     map (\<lambda>(a, b). (acc_line a, acc_metrics a)) (filter (\<lambda>(a, b). newLine b) (pairwise accs))"

text \<open>A measurer with the widths of the scenario \<^verbatim>\<open>"a b c"\<close>; every other string measures 10.\<close>

definition abcMeasure :: "jsstring \<Rightarrow> TextMetrics" where
  "abcMeasure s =
     \<lparr>tm_width = (if s = utf16 ''a b c'' then 300 else if s = utf16 ''a'' then 20
                  else if s = utf16 ''a b'' then 70 else 10),
      actualBoundingBoxLeft = None, actualBoundingBoxRight = 0,
      actualBoundingBoxAscent = 0, actualBoundingBoxDescent = 0\<rparr>"

text \<open>The options of the scenario \<^verbatim>\<open>"a b c"\<close>.\<close>

definition abcOptions :: WrapTextOptions where
  "abcOptions = \<lparr>opt_context = abcMeasure, opt_text = utf16 ''a b c'', opt_fontSize = 10,
            opt_lineHeight = 12, opt_wrapWidth = Finite 100\<rparr>"

text \<open>A measurer that gives every code unit an advance of 10 pixels.\<close>

definition monospace :: "jsstring \<Rightarrow> TextMetrics" where
  "monospace s =
     \<lparr>tm_width = 10 * real (length s),
      actualBoundingBoxLeft = None, actualBoundingBoxRight = 0,
      actualBoundingBoxAscent = 0, actualBoundingBoxDescent = 0\<rparr>"

text \<open>A text whose middle word alone is wider than the wrap width.\<close>

definition longWordOptions :: WrapTextOptions where
  "longWordOptions = \<lparr>opt_context = monospace, opt_text = utf16 ''a bcdefgh i'', opt_fontSize = 10,
            opt_lineHeight = 12, opt_wrapWidth = Finite 50\<rparr>"

text \<open>The non-empty whitespace-delimited words of a list of lines, in order.\<close>

definition nonEmptyWords :: "jsstring list \<Rightarrow> jsstring list" where
  "nonEmptyWords lines = filter (\<lambda>w. w \<noteq> []) (concat (map (split_on isWhiteSpace) lines))"

text \<open>A measurer that reports glyph extents, with the ink starting 5 pixels to the right of the
  text origin (a negative \<^verbatim>\<open>actualBoundingBoxLeft\<close>).\<close>

definition inkMeasure :: "jsstring \<Rightarrow> TextMetrics" where
  "inkMeasure s =
     \<lparr>tm_width = 10, actualBoundingBoxLeft = Some (- 5), actualBoundingBoxRight = 15,
      actualBoundingBoxAscent = 8, actualBoundingBoxDescent = 2\<rparr>"

definition inkOptions :: WrapTextOptions where
  "inkOptions = \<lparr>opt_context = inkMeasure, opt_text = utf16 ''a'', opt_fontSize = 10,
            opt_lineHeight = 12, opt_wrapWidth = Infinity\<rparr>"

text \<open>The contributions of the lines to the aggregate box: the extents of each line, the
  vertical ones shifted by the zero-based index of the line times the line height.\<close>

definition lineLefts :: "(jsstring \<times> LineMetrics) list \<Rightarrow> real list" where
  "lineLefts xs = map (\<lambda>e. lm_left (snd e)) xs"

definition lineRights :: "(jsstring \<times> LineMetrics) list \<Rightarrow> real list" where
  "lineRights xs = map (\<lambda>e. lm_right (snd e)) xs"

definition lineTops :: "real \<Rightarrow> nat \<Rightarrow> (jsstring \<times> LineMetrics) list \<Rightarrow> real list" where
  "lineTops lh n xs = map (\<lambda>(i, e). lm_top (snd e) - lh * real i) (enumerate n xs)"

definition lineBottoms :: "real \<Rightarrow> nat \<Rightarrow> (jsstring \<times> LineMetrics) list \<Rightarrow> real list" where
  "lineBottoms lh n xs = map (\<lambda>(i, e). lm_bottom (snd e) + lh * real i) (enumerate n xs)"

text \<open>Value equality of two attribute snapshots, as the specification words it: every field
  equal by value, the object-typed fields component by component.\<close>

definition value_equal_Color :: "Color \<Rightarrow> Color \<Rightarrow> bool" where
  "value_equal_Color c d \<longleftrightarrow>
     color_r c = color_r d \<and> color_g c = color_g d \<and> color_b c = color_b d \<and>
     color_a c = color_a d"

definition value_equal_Vector :: "Vector \<Rightarrow> Vector \<Rightarrow> bool" where
  "value_equal_Vector u v \<longleftrightarrow> vector_x u = vector_x v \<and> vector_y u = vector_y v"

definition value_equal :: "'a Attributes_scheme \<Rightarrow> 'b Attributes_scheme \<Rightarrow> bool" where
  "value_equal args this \<longleftrightarrow>
     attr_text args = attr_text this \<and>
     fontFamily args = fontFamily this \<and>
     fontStyle args = fontStyle this \<and>
     bold args = bold this \<and>
     fontSize args = fontSize this \<and>
     textAlign args = textAlign this \<and>
     baseAlign args = baseAlign this \<and>
     lineHeight args = lineHeight this \<and>
     wrapWidth args = wrapWidth this \<and>
     value_equal_Color (color args) (color this) \<and>
     value_equal_Color (outlineColor args) (outlineColor this) \<and>
     outlineWidth args = outlineWidth this \<and>
     value_equal_Color (shadowColor args) (shadowColor this) \<and>
     value_equal_Vector (shadowOffset args) (shadowOffset this) \<and>
     shadowBlurRadius args = shadowBlurRadius this"

text \<open>Concrete objects: two distinct \<^verbatim>\<open>Color\<close> objects that are both black, a transparent
  colour, the zero vector, and the default attributes with the text "Hello".\<close>

definition black :: Color where
  "black = \<lparr>color_ref = 0, color_r = 0, color_g = 0, color_b = 0, color_a = 1\<rparr>"

definition black2 :: Color where
  "black2 = \<lparr>color_ref = 3, color_r = 0, color_g = 0, color_b = 0, color_a = 1\<rparr>"

definition transparent :: Color where
  "transparent = \<lparr>color_ref = 1, color_r = 0, color_g = 0, color_b = 0, color_a = 0\<rparr>"

definition zeroVector :: Vector where
  "zeroVector = \<lparr>vector_ref = 2, vector_x = 0, vector_y = 0\<rparr>"

definition helloAttributes :: Attributes where
  "helloAttributes =
     \<lparr>attr_text = utf16 ''Hello'', fontFamily = utf16 ''sans-serif'',
      fontStyle = FontStyle_Normal, bold = False, fontSize = 10, textAlign = TextAlign_Left,
      baseAlign = BaseAlign_Alphabetic, lineHeight = None, wrapWidth = Infinity,
      color = black, outlineColor = transparent, outlineWidth = 0,
      shadowColor = transparent, shadowOffset = zeroVector, shadowBlurRadius = 0\<rparr>"

text \<open>The same attributes, except that the colour is the other black object.\<close>

definition helloAttributes2 :: Attributes where
  "helloAttributes2 = helloAttributes\<lparr>color := black2\<rparr>"

text \<open>A renderer for these attributes whose cache is populated.\<close>

definition helloRenderer :: "CacheEntry TextRenderer" where
  "helloRenderer =
     \<lparr>attr_text = utf16 ''Hello'', fontFamily = utf16 ''sans-serif'',
      fontStyle = FontStyle_Normal, bold = False, fontSize = 10, textAlign = TextAlign_Left,
      baseAlign = BaseAlign_Alphabetic, lineHeight = None, wrapWidth = Infinity,
      color = black, outlineColor = transparent, outlineWidth = 0,
      shadowColor = transparent, shadowOffset = zeroVector, shadowBlurRadius = 0,
      renderer_ref = 0,
      cache = Some \<lparr>cache_canvas = \<lparr>canvas_id = 0, width = 140, height = 60\<rparr>,
                     cache_left = 70, cache_top = 30\<rparr>\<rparr>"

definition world1 :: world where
  "world1 = \<lparr>renderers = 1, created = 1, drawn = []\<rparr>"















text \<open>A measurer that reports 20 for "a", 300 for "x a y" and 10 for every other string, and
  the text "x a y" with the wrap width 15 under it.\<close>

definition xayMeasure :: "jsstring \<Rightarrow> TextMetrics" where
  "xayMeasure s =
     \<lparr>tm_width = (if s = utf16 ''a'' then 20 else if s = utf16 ''x a y'' then 300 else 10),
      actualBoundingBoxLeft = None, actualBoundingBoxRight = 0,
      actualBoundingBoxAscent = 0, actualBoundingBoxDescent = 0\<rparr>"

definition xayOptions :: WrapTextOptions where
  "xayOptions = \<lparr>opt_context = xayMeasure, opt_text = utf16 ''x a y'', opt_fontSize = 10,
            opt_lineHeight = 12, opt_wrapWidth = Finite 15\<rparr>"




section \<open>Properties of the wrapper\<close>

subsection \<open>Splitting\<close>

lemma split_on_not_Nil: "split_on p s \<noteq> []"
  by (induction s) (auto split: list.splits)

subsection \<open>The pipeline of one paragraph is the greedy packer\<close>

lemma extended_neq_word: "c \<noteq> [] \<Longrightarrow> c @ [s] @ w \<noteq> w"
proof
  assume "c @ [s] @ w = w"
  from arg_cong[OF this, of length] show False by simp
qed

lemma joinWord_eq_word: "joinWord c w = w \<longleftrightarrow> c = []"
  using extended_neq_word[of c space w] by (simp add: joinWord_def)

lemma wrapStep_joinWord:
  "wrapStep options a w =
     (if gt_wrap (measuredWidth options (joinWord (acc_line a) w)) (opt_wrapWidth options)
         \<and> acc_line a \<noteq> []
      then \<lparr>acc_line = w, acc_metrics = measureLine (options\<lparr>opt_text := w\<rparr>), newLine = True\<rparr>
      else \<lparr>acc_line = joinWord (acc_line a) w,
            acc_metrics = measureLine (options\<lparr>opt_text := joinWord (acc_line a) w\<rparr>),
            newLine = False\<rparr>)"
proof -
  have "wrapStep options a w =
     (if gt_wrap (measuredWidth options (joinWord (acc_line a) w)) (opt_wrapWidth options)
         \<and> joinWord (acc_line a) w \<noteq> w
      then \<lparr>acc_line = w, acc_metrics = measureLine (options\<lparr>opt_text := w\<rparr>), newLine = True\<rparr>
      else \<lparr>acc_line = joinWord (acc_line a) w,
            acc_metrics = measureLine (options\<lparr>opt_text := joinWord (acc_line a) w\<rparr>),
            newLine = False\<rparr>)"
    unfolding wrapStep_def Let_def measuredWidth_def joinWord_def by (rule refl)
  then show ?thesis by (simp only: joinWord_eq_word)
qed

lemma emitted_Cons2:
  "emitted (a # b # rest) =
     (if newLine b then [(acc_line a, acc_metrics a)] else []) @ emitted (b # rest)"
  by (simp add: emitted_def)

lemma push_scan_Cons: "push v (scan f a (w # ws)) = f a w # push v (scan f (f a w) ws)"
  by (simp add: push_def)

lemma pipeline_from:
  "map fst (emitted (a # push last_acc (scan (wrapStep options) a ws)))
   = greedy_pack (measuredWidth options) (opt_wrapWidth options) (acc_line a) ws"
proof (induction ws arbitrary: a)
  case Nil
  show ?case by (simp add: push_def last_acc_def emitted_def)
next
  case (Cons w ws)
  let ?b = "wrapStep options a w"
  have step: "map fst (emitted (a # push last_acc (scan (wrapStep options) a (w # ws))))
      = (if newLine ?b then [acc_line a] else [])
        @ greedy_pack (measuredWidth options) (opt_wrapWidth options) (acc_line ?b) ws"
    unfolding push_scan_Cons emitted_Cons2 using Cons.IH[of ?b] by simp
  show ?case
  proof (cases "gt_wrap (measuredWidth options (joinWord (acc_line a) w)) (opt_wrapWidth options)
                \<and> acc_line a \<noteq> []")
    case True
    then have "newLine ?b" "acc_line ?b = w" by (simp_all add: wrapStep_joinWord)
    with True step show ?thesis by auto
  next
    case False
    then have "\<not> newLine ?b" "acc_line ?b = joinWord (acc_line a) w"
      by (auto simp: wrapStep_joinWord)
    with False step show ?thesis by auto
  qed
qed

lemma pipeline_first:
  assumes "ws \<noteq> []"
  shows "map fst (emitted (push last_acc (scan (wrapStep options) first ws)))
   = greedy_pack (measuredWidth options) (opt_wrapWidth options) [] ws"
proof -
  obtain w ws' where ws: "ws = w # ws'" using assms by (cases ws) auto
  have l: "acc_line (wrapStep options first w) = w"
    by (simp add: wrapStep_joinWord first_def joinWord_def)
  have "map fst (emitted (push last_acc (scan (wrapStep options) first ws)))
      = greedy_pack (measuredWidth options) (opt_wrapWidth options) w ws'"
    unfolding ws push_scan_Cons
    using pipeline_from[where options = options and a = "wrapStep options first w" and ws = ws'] l
    by simp
  then show ?thesis by (simp add: ws joinWord_def)
qed

lemma emitted_initial:
  assumes "ws \<noteq> []"
  shows "emitted (first # push last_acc (scan (wrapStep options) first ws))
       = emitted (push last_acc (scan (wrapStep options) first ws))"
proof -
  obtain w ws' where ws: "ws = w # ws'" using assms by (cases ws) auto
  have "\<not> newLine (wrapStep options first w)"
    by (simp add: wrapStep_joinWord first_def)
  then show ?thesis
    unfolding ws push_scan_Cons emitted_Cons2 by simp
qed

lemma gt_wrap_iff: "gt_wrap w W \<longleftrightarrow> \<not> le_wrap w W"
  by (cases W) auto

lemma wrapParagraph_emitted:
  "wrapParagraph options para =
     (if le_wrap (lm_width (snd para)) (opt_wrapWidth options) then [para]
      else emitted (push last_acc
             (scan (wrapStep options) first (split_on isWhiteSpace (fst para)))))"
  by (simp add: wrapParagraph_def emitted_def)

lemma wrapParagraph_lines:
  "map fst (wrapParagraph options (p, measureLine (options\<lparr>opt_text := p\<rparr>))) =
     (if gt_wrap (measuredWidth options p) (opt_wrapWidth options)
      then greedy_pack (measuredWidth options) (opt_wrapWidth options) []
             (split_on isWhiteSpace p)
      else [p])"
  by (simp add: wrapParagraph_emitted pipeline_first split_on_not_Nil gt_wrap_iff
      measuredWidth_def)

lemma wt_lines_foldl:
  "wt_lines (foldl (\<lambda>wt e. appendWrappedTextLine wt e lh) wt xs) = wt_lines wt @ map fst xs"
  by (induction xs arbitrary: wt) (simp_all add: appendWrappedTextLine_def)

lemma wt_lines_wrapText: "wt_lines (wrapText options) = map fst (wrapLines options)"
  by (simp add: wrapText_def wt_lines_foldl emptyWrappedText_def)

lemma wrapLines_lines:
  "map fst (wrapLines options) =
     concat (map (\<lambda>p. if gt_wrap (measuredWidth options p) (opt_wrapWidth options)
                      then greedy_pack (measuredWidth options) (opt_wrapWidth options) []
                             (split_on isWhiteSpace p)
                      else [p])
       (split_on isNewline (opt_text options)))"
  by (simp add: wrapLines_def map_concat comp_def wrapParagraph_lines)

lemma measuredWidth_eq: "measuredWidth options s = tm_width (opt_context options s)"
  by (simp add: measuredWidth_def measureLine_def Let_def split: option.splits)

subsection \<open>The scenario "a b c"\<close>

lemma utf16_abc:
  "utf16 ''a b c'' = [0x61, 0x20, 0x62, 0x20, 0x63]"
  "utf16 ''a b'' = [0x61, 0x20, 0x62]"
  "utf16 ''a'' = [0x61]"
  "utf16 ''c'' = [0x63]"
  by (simp_all add: utf16_def)

lemma split_abc:
  "split_on isNewline (utf16 ''a b c'') = [utf16 ''a b c'']"
  "split_on isWhiteSpace (utf16 ''a b c'') = [[0x61], [0x62], [0x63]]"
  by (simp_all add: utf16_abc isNewline_def isWhiteSpace_def)

lemma abc_lines:
  assumes "tm_width (m (utf16 ''a b c'')) = 300" "tm_width (m (utf16 ''a'')) = 20"
    "tm_width (m (utf16 ''a b'')) = 70"
  shows "wt_lines (wrapText \<lparr>opt_context = m, opt_text = utf16 ''a b c'', opt_fontSize = fs,
            opt_lineHeight = lh, opt_wrapWidth = Finite 100\<rparr>) = [utf16 ''a b'', utf16 ''c'']"
proof -
  let ?o = "\<lparr>opt_context = m, opt_text = utf16 ''a b c'', opt_fontSize = fs,
            opt_lineHeight = lh, opt_wrapWidth = Finite 100\<rparr>"
  have w: "measuredWidth ?o [0x61, 0x20, 0x62, 0x20, 0x63] = 300"
    "measuredWidth ?o [0x61] = 20" "measuredWidth ?o [0x61, 0x20, 0x62] = 70"
    using assms by (simp_all add: measuredWidth_eq utf16_abc)
  have "wt_lines (wrapText ?o)
      = greedy_pack (measuredWidth ?o) (Finite 100) [] [[0x61], [0x62], [0x63]]"
    using w(1) by (simp add: wt_lines_wrapText wrapLines_lines split_abc) (simp add: utf16_abc)
  also have "\<dots> = [[0x61, 0x20, 0x62], [0x63]]"
    using w by (simp add: joinWord_def space_def)
  finally show ?thesis by (simp add: utf16_abc)
qed

text \<open>
  Claim C1. The lines \<open>wrapText\<close> emits are, paragraph by paragraph in order, the paragraph
  itself when its measured width does not exceed the wrap width, and otherwise exactly
  the lines of the greedy word packer run from the empty candidate over the
  whitespace-delimited words of the paragraph. In particular, for any measurer that
  reports 300 for "a b c", 20 for "a" and 70 for "a b", the text "a b c" with wrap width
  100 gives the lines "a b" and "c".
\<close>

theorem wrapText_greedy:
  "wt_lines (wrapText options) =
     concat (map (\<lambda>p. if gt_wrap (measuredWidth options p) (opt_wrapWidth options)
                      then greedy_pack (measuredWidth options) (opt_wrapWidth options) []
                             (split_on isWhiteSpace p)
                      else [p])
       (split_on isNewline (opt_text options)))
   \<and> (\<forall>m fs lh. tm_width (m (utf16 ''a b c'')) = 300 \<and> tm_width (m (utf16 ''a'')) = 20 \<and>
          tm_width (m (utf16 ''a b'')) = 70 \<longrightarrow>
        wt_lines (wrapText \<lparr>opt_context = m, opt_text = utf16 ''a b c'', opt_fontSize = fs,
            opt_lineHeight = lh, opt_wrapWidth = Finite 100\<rparr>) = [utf16 ''a b'', utf16 ''c''])"
  using abc_lines by (simp add: wt_lines_wrapText wrapLines_lines)

theorem wrapText_greedy_witness:
  "tm_width (abcMeasure (utf16 ''a b c'')) = 300 \<and> tm_width (abcMeasure (utf16 ''a'')) = 20 \<and>
   tm_width (abcMeasure (utf16 ''a b'')) = 70 \<and>
   wt_lines (wrapText \<lparr>opt_context = abcMeasure, opt_text = utf16 ''a b c'', opt_fontSize = 10,
            opt_lineHeight = 12, opt_wrapWidth = Finite 100\<rparr>) = [utf16 ''a b'', utf16 ''c'']"
proof -
  have h: "tm_width (abcMeasure (utf16 ''a b c'')) = 300 \<and>
      tm_width (abcMeasure (utf16 ''a'')) = 20 \<and> tm_width (abcMeasure (utf16 ''a b'')) = 70"
    by (simp add: abcMeasure_def utf16_def)
  from wrapText_greedy[THEN conjunct2, rule_format, OF h] h show ?thesis by blast
qed

subsection \<open>Unbounded wrap width\<close>

text \<open>
  Claim C4. With the wrap width \<open>Infinity\<close>, \<open>wrapText\<close> emits exactly the
  newline-delimited paragraphs of the text, unchanged and in order; the function applied
  to each paragraph returns the paragraph alone, whatever its metrics, so the word
  splitting is never entered.
\<close>

theorem wrapText_unbounded:
  "wt_lines (wrapText (options\<lparr>opt_wrapWidth := Infinity\<rparr>))
     = split_on isNewline (opt_text options)
   \<and> wrapParagraph (options\<lparr>opt_wrapWidth := Infinity\<rparr>) para = [para]"
proof -
  have "concat (map (\<lambda>p. [p]) xs) = xs" for xs :: "jsstring list"
    by (induction xs) auto
  then show ?thesis
    by (simp add: wt_lines_wrapText wrapLines_lines wrapParagraph_def)
qed

subsection \<open>Only single words may exceed the wrap width\<close>

lemma split_on_refine:
  assumes "\<And>c. q c \<Longrightarrow> p c"
  shows "concat (map (split_on p) (split_on q s)) = split_on p s"
proof (induction s)
  case Nil
  show ?case by simp
next
  case (Cons c cs)
  show ?case
  proof (cases "q c")
    case True
    then have "p c" by (rule assms)
    with True Cons show ?thesis by simp
  next
    case False
    obtain w ws where q: "split_on q cs = w # ws"
      using split_on_not_Nil[of q cs] by (cases "split_on q cs") auto
    obtain v vs where p: "split_on p w = v # vs"
      using split_on_not_Nil[of p w] by (cases "split_on p w") auto
    from Cons q p have IH: "split_on p cs = v # vs @ concat (map (split_on p) ws)" by simp
    show ?thesis
      using False q p IH by simp
  qed
qed

lemma isNewline_isWhiteSpace: "isNewline c \<Longrightarrow> isWhiteSpace c"
  by (simp add: isNewline_def isWhiteSpace_def)

lemma words_of_paragraphs:
  "concat (map (split_on isWhiteSpace) (split_on isNewline s)) = split_on isWhiteSpace s"
  by (rule split_on_refine) (rule isNewline_isWhiteSpace)

lemma greedy_pack_fits:
  assumes "c \<in> S \<or> \<not> gt_wrap (wd c) W" "set ws \<subseteq> S" "l \<in> set (greedy_pack wd W c ws)"
  shows "l \<in> S \<or> \<not> gt_wrap (wd l) W"
  using assms
proof (induction ws arbitrary: c)
  case Nil
  then show ?case by simp
next
  case (Cons w ws)
  show ?case
  proof (cases "gt_wrap (wd (joinWord c w)) W \<and> c \<noteq> []")
    case True
    with Cons.prems(3) have "l = c \<or> l \<in> set (greedy_pack wd W w ws)" by simp
    then show ?thesis
    proof
      assume "l = c" with Cons.prems(1) show ?thesis by simp
    next
      assume "l \<in> set (greedy_pack wd W w ws)"
      moreover have "w \<in> S \<or> \<not> gt_wrap (wd w) W" using Cons.prems(2) by simp
      moreover have "set ws \<subseteq> S" using Cons.prems(2) by simp
      ultimately show ?thesis using Cons.IH by blast
    qed
  next
    case False
    with Cons.prems(3) have l: "l \<in> set (greedy_pack wd W (joinWord c w) ws)" by auto
    have "joinWord c w \<in> S \<or> \<not> gt_wrap (wd (joinWord c w)) W"
    proof (cases "c = []")
      case True
      then have "joinWord c w = w" by (simp add: joinWord_def)
      with Cons.prems(2) show ?thesis by simp
    next
      case False
      with \<open>\<not> (gt_wrap (wd (joinWord c w)) W \<and> c \<noteq> [])\<close> show ?thesis by simp
    qed
    moreover have "set ws \<subseteq> S" using Cons.prems(2) by simp
    ultimately show ?thesis using l Cons.IH by blast
  qed
qed

lemma greedy_pack_first_fits:
  assumes "ws \<noteq> []" "l \<in> set (greedy_pack wd W [] ws)"
  shows "l \<in> set ws \<or> \<not> gt_wrap (wd l) W"
proof -
  obtain w ws' where ws: "ws = w # ws'" using assms(1) by (cases ws) auto
  with assms(2) have "l \<in> set (greedy_pack wd W w ws')" by (simp add: joinWord_def)
  moreover have "w \<in> set ws \<or> \<not> gt_wrap (wd w) W" by (simp add: ws)
  moreover have "set ws' \<subseteq> set ws" by (auto simp: ws)
  ultimately show ?thesis by (rule greedy_pack_fits[rotated 2])
qed

text \<open>
  Claim C10. Every line \<open>wrapText\<close> emits is one of the whitespace-delimited words of
  the input text or has a measured width of at most the wrap width: only a line of a single
  word may exceed the wrap width.
\<close>

theorem wrapText_line_fits_or_single_word:
  assumes "l \<in> set (wt_lines (wrapText options))"
  shows "l \<in> set (split_on isWhiteSpace (opt_text options))
         \<or> le_wrap (measuredWidth options l) (opt_wrapWidth options)"
proof -
  from assms obtain p where p: "p \<in> set (split_on isNewline (opt_text options))"
    and l: "l \<in> set (if gt_wrap (measuredWidth options p) (opt_wrapWidth options)
                      then greedy_pack (measuredWidth options) (opt_wrapWidth options) []
                             (split_on isWhiteSpace p)
                      else [p])"
    by (auto simp: wt_lines_wrapText wrapLines_lines)
  show ?thesis
  proof (cases "gt_wrap (measuredWidth options p) (opt_wrapWidth options)")
    case True
    with l have "l \<in> set (split_on isWhiteSpace p)
        \<or> \<not> gt_wrap (measuredWidth options l) (opt_wrapWidth options)"
      using greedy_pack_first_fits[OF split_on_not_Nil] by simp
    moreover have "set (split_on isWhiteSpace p) \<subseteq> set (split_on isWhiteSpace (opt_text options))"
      using p words_of_paragraphs[of "opt_text options", symmetric] by auto
    ultimately show ?thesis by (auto simp: gt_wrap_iff)
  next
    case False
    with l have "l = p" by simp
    with False show ?thesis by (simp add: gt_wrap_iff)
  qed
qed

theorem wrapText_line_fits_or_single_word_witness:
  "utf16 ''a b'' \<in> set (wt_lines (wrapText abcOptions))
   \<and> (utf16 ''a b'' \<in> set (split_on isWhiteSpace (opt_text abcOptions))
         \<or> le_wrap (measuredWidth abcOptions (utf16 ''a b'')) (opt_wrapWidth abcOptions))"
proof -
  have h: "utf16 ''a b'' \<in> set (wt_lines (wrapText abcOptions))"
    unfolding abcOptions_def
    by (subst abc_lines) (simp_all add: abcMeasure_def utf16_def)
  from wrapText_line_fits_or_single_word[OF h] h show ?thesis by blast
qed

subsection \<open>Words are never split\<close>

lemma split_on_append_sep: "p s \<Longrightarrow> split_on p (xs @ s # ys) = split_on p xs @ split_on p ys"
proof (induction xs)
  case Nil
  then show ?case by simp
next
  case (Cons x xs)
  obtain w ws where "split_on p xs = w # ws"
    using split_on_not_Nil[of p xs] by (cases "split_on p xs") auto
  with Cons show ?case by simp
qed

lemma split_on_pieces_free: "w \<in> set (split_on p s) \<Longrightarrow> c \<in> set w \<Longrightarrow> \<not> p c"
proof (induction s arbitrary: w)
  case Nil
  then show ?case by simp
next
  case (Cons x xs)
  obtain v vs where v: "split_on p xs = v # vs"
    using split_on_not_Nil[of p xs] by (cases "split_on p xs") auto
  show ?case
  proof (cases "p x")
    case True
    with Cons.prems have "w = [] \<or> w \<in> set (split_on p xs)" by simp
    with Cons show ?thesis by auto
  next
    case False
    with Cons.prems v have "w = x # v \<or> w \<in> set vs" by simp
    then show ?thesis
    proof
      assume "w = x # v"
      with Cons.prems(2) have "c = x \<or> c \<in> set v" by simp
      then show ?thesis using False Cons.IH[of v] v by auto
    next
      assume "w \<in> set vs"
      then show ?thesis using Cons.IH[of w] Cons.prems(2) v by simp
    qed
  qed
qed

lemma split_on_free: "\<forall>c \<in> set w. \<not> p c \<Longrightarrow> split_on p w = [w]"
  by (induction w) auto

lemma split_on_piece: "w \<in> set (split_on p s) \<Longrightarrow> split_on p w = [w]"
  by (rule split_on_free) (blast dest: split_on_pieces_free)

lemma split_on_hd_prefix: "split_on p s = v # vs \<Longrightarrow> \<exists>b. s = v @ b"
proof (induction s arbitrary: v vs)
  case Nil
  then show ?case by simp
next
  case (Cons x xs)
  obtain v' vs' where v': "split_on p xs = v' # vs'"
    using split_on_not_Nil[of p xs] by (cases "split_on p xs") auto
  from Cons.IH[OF v'] obtain b where b: "xs = v' @ b" by blast
  show ?case
  proof (cases "p x")
    case True
    with Cons.prems show ?thesis by simp
  next
    case False
    with Cons.prems v' have "v = x # v'" by simp
    with b have "x # xs = v @ b" by simp
    then show ?thesis by blast
  qed
qed

lemma split_on_sublist: "w \<in> set (split_on p s) \<Longrightarrow> \<exists>a b. s = a @ w @ b"
proof (induction s arbitrary: w)
  case Nil
  then show ?case by simp
next
  case (Cons x xs)
  obtain v vs where v: "split_on p xs = v # vs"
    using split_on_not_Nil[of p xs] by (cases "split_on p xs") auto
  have tl: "\<exists>a b. x # xs = a @ w @ b" if "w \<in> set (split_on p xs)"
  proof -
    from Cons.IH[OF that] obtain a b where "xs = a @ w @ b" by blast
    then have "x # xs = (x # a) @ w @ b" by simp
    then show ?thesis by blast
  qed
  show ?case
  proof (cases "p x")
    case True
    with Cons.prems have "w = [] \<or> w \<in> set (split_on p xs)" by simp
    then show ?thesis
    proof
      assume "w = []"
      then have "x # xs = [] @ w @ (x # xs)" by simp
      then show ?thesis by blast
    next
      assume "w \<in> set (split_on p xs)" then show ?thesis by (rule tl)
    qed
  next
    case False
    with Cons.prems v have "w = x # v \<or> w \<in> set vs" by simp
    then show ?thesis
    proof
      assume w: "w = x # v"
      from split_on_hd_prefix[OF v] obtain b where "xs = v @ b" by blast
      with w have "x # xs = [] @ w @ b" by simp
      then show ?thesis by blast
    next
      assume "w \<in> set vs"
      then have "w \<in> set (split_on p xs)" by (simp add: v)
      then show ?thesis by (rule tl)
    qed
  qed
qed

lemma nonEmptyWords_append: "nonEmptyWords (xs @ ys) = nonEmptyWords xs @ nonEmptyWords ys"
  by (simp add: nonEmptyWords_def)

lemma nonEmptyWords_concat:
  "nonEmptyWords (concat (map f ps)) = concat (map (\<lambda>p. nonEmptyWords (f p)) ps)"
  by (induction ps) (simp_all add: nonEmptyWords_append, simp add: nonEmptyWords_def)

lemma nonEmptyWords_Cons:
  "nonEmptyWords (l # ls) = filter (\<lambda>w. w \<noteq> []) (split_on isWhiteSpace l) @ nonEmptyWords ls"
  by (simp add: nonEmptyWords_def)

lemma isWhiteSpace_space: "isWhiteSpace space"
  by (simp add: isWhiteSpace_def space_def)

lemma split_joinWord:
  assumes "split_on isWhiteSpace w = [w]"
  shows "filter (\<lambda>w. w \<noteq> []) (split_on isWhiteSpace (joinWord c w))
       = filter (\<lambda>w. w \<noteq> []) (split_on isWhiteSpace c @ [w])"
proof (cases "c = []")
  case True
  then show ?thesis using assms by (simp add: joinWord_def)
next
  case False
  then have "joinWord c w = c @ space # w" by (simp add: joinWord_def)
  then show ?thesis
    using assms split_on_append_sep[of isWhiteSpace space c w] isWhiteSpace_space by simp
qed

lemma greedy_pack_words:
  assumes "\<forall>w \<in> set ws. split_on isWhiteSpace w = [w]"
  shows "nonEmptyWords (greedy_pack wd W c ws)
       = filter (\<lambda>w. w \<noteq> []) (split_on isWhiteSpace c @ ws)"
  using assms
proof (induction ws arbitrary: c)
  case Nil
  show ?case by (simp add: nonEmptyWords_def)
next
  case (Cons w ws)
  then have w: "split_on isWhiteSpace w = [w]" and ws: "\<forall>w \<in> set ws. split_on isWhiteSpace w = [w]"
    by simp_all
  show ?case
  proof (cases "gt_wrap (wd (joinWord c w)) W \<and> c \<noteq> []")
    case True
    then have "nonEmptyWords (greedy_pack wd W c (w # ws))
        = filter (\<lambda>w. w \<noteq> []) (split_on isWhiteSpace c) @ nonEmptyWords (greedy_pack wd W w ws)"
      by (simp add: nonEmptyWords_Cons)
    also have "nonEmptyWords (greedy_pack wd W w ws) = filter (\<lambda>w. w \<noteq> []) ([w] @ ws)"
      using Cons.IH[OF ws, of w] w by simp
    finally show ?thesis by simp
  next
    case False
    then have "nonEmptyWords (greedy_pack wd W c (w # ws))
        = nonEmptyWords (greedy_pack wd W (joinWord c w) ws)"
      by auto
    also have "\<dots> = filter (\<lambda>w. w \<noteq> []) (split_on isWhiteSpace (joinWord c w) @ ws)"
      by (rule Cons.IH[OF ws])
    also have "\<dots> = filter (\<lambda>w. w \<noteq> []) (split_on isWhiteSpace c @ w # ws)"
      using split_joinWord[OF w, of c] by simp
    finally show ?thesis .
  qed
qed

lemma paragraph_words:
  "nonEmptyWords (if gt_wrap (wd p) W then greedy_pack wd W [] (split_on isWhiteSpace p) else [p])
     = filter (\<lambda>w. w \<noteq> []) (split_on isWhiteSpace p)"
proof (cases "gt_wrap (wd p) W")
  case True
  have "\<forall>w \<in> set (split_on isWhiteSpace p). split_on isWhiteSpace w = [w]"
    by (blast intro: split_on_piece)
  from greedy_pack_words[OF this, of wd W "[]"] True show ?thesis by simp
next
  case False
  then show ?thesis by (simp add: nonEmptyWords_def)
qed

lemma wrapText_words:
  "nonEmptyWords (wt_lines (wrapText options))
     = filter (\<lambda>w. w \<noteq> []) (split_on isWhiteSpace (opt_text options))"
proof -
  have "nonEmptyWords (wt_lines (wrapText options))
      = concat (map (\<lambda>p. filter (\<lambda>w. w \<noteq> []) (split_on isWhiteSpace p))
          (split_on isNewline (opt_text options)))"
    unfolding wt_lines_wrapText wrapLines_lines nonEmptyWords_concat paragraph_words ..
  also have "\<dots> = filter (\<lambda>w. w \<noteq> [])
      (concat (map (split_on isWhiteSpace) (split_on isNewline (opt_text options))))"
    by (simp add: filter_concat comp_def)
  finally show ?thesis by (simp only: words_of_paragraphs)
qed

lemma greedy_pack_candidate:
  assumes mono: "\<And>s t u. gt_wrap (wd t) W \<Longrightarrow> gt_wrap (wd (s @ t @ u)) W"
    and "gt_wrap (wd c) W" "c \<noteq> []"
  shows "c \<in> set (greedy_pack wd W c ws)"
proof (cases ws)
  case Nil
  then show ?thesis by simp
next
  case (Cons x xs)
  have "joinWord c x = [] @ c @ (space # x)" using assms(3) by (simp add: joinWord_def)
  then have "gt_wrap (wd (joinWord c x)) W" using mono[OF assms(2), of "[]" "space # x"] by simp
  with assms(3) Cons show ?thesis by simp
qed

lemma greedy_pack_own_line:
  assumes mono: "\<And>s t u. gt_wrap (wd t) W \<Longrightarrow> gt_wrap (wd (s @ t @ u)) W"
    and "w \<in> set ws" "w \<noteq> []" "gt_wrap (wd w) W"
  shows "w \<in> set (greedy_pack wd W c ws)"
  using assms(2)
proof (induction ws arbitrary: c)
  case Nil
  then show ?case by simp
next
  case (Cons x xs)
  show ?case
  proof (cases "w = x")
    case True
    have own: "w \<in> set (greedy_pack wd W w xs)"
      by (rule greedy_pack_candidate[OF mono assms(4) assms(3)])
    show ?thesis
    proof (cases "c = []")
      case c: True
      then show ?thesis using own True by (simp add: joinWord_def)
    next
      case c: False
      then have "joinWord c w = (c @ [space]) @ w @ []" by (simp add: joinWord_def)
      then have "gt_wrap (wd (joinWord c w)) W"
        using mono[OF assms(4), of "c @ [space]" "[]"] by simp
      with c own True show ?thesis by simp
    qed
  next
    case False
    with Cons.prems have "w \<in> set xs" by simp
    then show ?thesis using Cons.IH by simp
  qed
qed

lemma wrapText_one_word:
  assumes "\<forall>c \<in> set (opt_text options). \<not> isWhiteSpace c"
  shows "wt_lines (wrapText options) = [opt_text options]"
proof -
  have "\<forall>c \<in> set (opt_text options). \<not> isNewline c"
    using assms isNewline_isWhiteSpace by blast
  then have "split_on isNewline (opt_text options) = [opt_text options]"
    by (rule split_on_free)
  moreover have "split_on isWhiteSpace (opt_text options) = [opt_text options]"
    using assms by (rule split_on_free)
  ultimately show ?thesis
    by (simp add: wt_lines_wrapText wrapLines_lines joinWord_def)
qed

lemma wrapText_own_line:
  assumes mono: "\<And>s t u. gt_wrap (measuredWidth options t) (opt_wrapWidth options)
            \<Longrightarrow> gt_wrap (measuredWidth options (s @ t @ u)) (opt_wrapWidth options)"
    and w: "w \<in> set (split_on isWhiteSpace (opt_text options))" "w \<noteq> []"
      "gt_wrap (measuredWidth options w) (opt_wrapWidth options)"
  shows "w \<in> set (wt_lines (wrapText options))"
proof -
  from w(1) obtain p where p: "p \<in> set (split_on isNewline (opt_text options))"
    and wp: "w \<in> set (split_on isWhiteSpace p)"
    using words_of_paragraphs[of "opt_text options", symmetric] by auto
  from split_on_sublist[OF wp] obtain a b where "p = a @ w @ b" by blast
  then have wide: "gt_wrap (measuredWidth options p) (opt_wrapWidth options)"
    using mono[OF w(3), of a b] by simp
  have "w \<in> set (greedy_pack (measuredWidth options) (opt_wrapWidth options) []
                  (split_on isWhiteSpace p))"
    by (rule greedy_pack_own_line[OF mono wp w(2) w(3)])
  with p wide show ?thesis
    by (auto simp: wt_lines_wrapText wrapLines_lines)
qed

lemma supercali_free: "\<forall>c \<in> set (utf16 ''supercalifragilisticexpialidocious''). \<not> isWhiteSpace c"
  by (simp add: utf16_def isWhiteSpace_def)

text \<open>
  Claim C3, as amended. \<open>wrapText\<close> never splits a word at a non-whitespace position: the
  non-empty whitespace-delimited words of the emitted lines are exactly those of the input
  text, in the same order. A text without any whitespace (a single word) is emitted as the
  single line holding the whole word, whatever its width. A non-empty word whose measured
  width alone exceeds the wrap width is emitted as a line of its own when the measurer
  reports every string that contains a too wide substring as too wide; the wrapper itself
  measures only the joined candidate, never the added word alone. In particular the
  one-word text "supercalifragilisticexpialidocious" with wrap width 50 gives the single
  line holding the whole word.
\<close>

theorem wrapText_keeps_words_whole:
  "nonEmptyWords (wt_lines (wrapText options))
     = filter (\<lambda>w. w \<noteq> []) (split_on isWhiteSpace (opt_text options))
   \<and> ((\<forall>c \<in> set (opt_text options). \<not> isWhiteSpace c)
        \<longrightarrow> wt_lines (wrapText options) = [opt_text options])
   \<and> ((\<forall>s t u. gt_wrap (measuredWidth options t) (opt_wrapWidth options)
            \<longrightarrow> gt_wrap (measuredWidth options (s @ t @ u)) (opt_wrapWidth options))
        \<and> w \<in> set (split_on isWhiteSpace (opt_text options)) \<and> w \<noteq> []
        \<and> gt_wrap (measuredWidth options w) (opt_wrapWidth options)
        \<longrightarrow> w \<in> set (wt_lines (wrapText options)))
   \<and> wt_lines (wrapText \<lparr>opt_context = m,
          opt_text = utf16 ''supercalifragilisticexpialidocious'', opt_fontSize = fs,
          opt_lineHeight = lh, opt_wrapWidth = Finite 50\<rparr>)
       = [utf16 ''supercalifragilisticexpialidocious'']"
proof (intro conjI impI)
  show "nonEmptyWords (wt_lines (wrapText options))
     = filter (\<lambda>w. w \<noteq> []) (split_on isWhiteSpace (opt_text options))"
    by (rule wrapText_words)
next
  assume "\<forall>c \<in> set (opt_text options). \<not> isWhiteSpace c"
  then show "wt_lines (wrapText options) = [opt_text options]"
    by (rule wrapText_one_word)
next
  assume "(\<forall>s t u. gt_wrap (measuredWidth options t) (opt_wrapWidth options)
            \<longrightarrow> gt_wrap (measuredWidth options (s @ t @ u)) (opt_wrapWidth options))
        \<and> w \<in> set (split_on isWhiteSpace (opt_text options)) \<and> w \<noteq> []
        \<and> gt_wrap (measuredWidth options w) (opt_wrapWidth options)"
  then show "w \<in> set (wt_lines (wrapText options))"
    using wrapText_own_line[of options w] by blast
next
  show "wt_lines (wrapText \<lparr>opt_context = m,
          opt_text = utf16 ''supercalifragilisticexpialidocious'', opt_fontSize = fs,
          opt_lineHeight = lh, opt_wrapWidth = Finite 50\<rparr>)
       = [utf16 ''supercalifragilisticexpialidocious'']"
    using wrapText_one_word[of "\<lparr>opt_context = m,
          opt_text = utf16 ''supercalifragilisticexpialidocious'', opt_fontSize = fs,
          opt_lineHeight = lh, opt_wrapWidth = Finite 50\<rparr>"] supercali_free
    by simp
qed

theorem wrapText_keeps_words_whole_witness:
  "utf16 ''bcdefgh'' \<in> set (split_on isWhiteSpace (opt_text longWordOptions))
   \<and> utf16 ''bcdefgh'' \<noteq> []
   \<and> gt_wrap (measuredWidth longWordOptions (utf16 ''bcdefgh'')) (opt_wrapWidth longWordOptions)
   \<and> utf16 ''bcdefgh'' \<in> set (wt_lines (wrapText longWordOptions))"
proof -
  have h: "(\<forall>s t u. gt_wrap (measuredWidth longWordOptions t) (opt_wrapWidth longWordOptions)
            \<longrightarrow> gt_wrap (measuredWidth longWordOptions (s @ t @ u))
                  (opt_wrapWidth longWordOptions))
   \<and> utf16 ''bcdefgh'' \<in> set (split_on isWhiteSpace (opt_text longWordOptions))
   \<and> utf16 ''bcdefgh'' \<noteq> []
   \<and> gt_wrap (measuredWidth longWordOptions (utf16 ''bcdefgh'')) (opt_wrapWidth longWordOptions)"
    by (simp add: measuredWidth_eq longWordOptions_def monospace_def utf16_def isWhiteSpace_def)
  from wrapText_keeps_words_whole[where options = longWordOptions and w = "utf16 ''bcdefgh''",
      THEN conjunct2, THEN conjunct2, THEN conjunct1, rule_format, OF h] h
  show ?thesis by blast
qed

lemma xay_lines: "wt_lines (wrapText xayOptions) = [utf16 ''x a'', utf16 ''y'']"
  by (simp add: wt_lines_wrapText wrapLines_lines measuredWidth_eq xayOptions_def
      xayMeasure_def utf16_def isNewline_def isWhiteSpace_def joinWord_def space_def)

text \<open>
  The claim as stated fails: under a measurer that reports 20 for "a", 300 for "x a y" and
  10 for "x" and "x a", the text "x a y" with wrap width 15 is emitted as the lines "x a"
  and "y". The word "a" alone measures wider than the wrap width and is not a line of its
  own, since only the joined candidate "x a" is measured when "a" is added.
\<close>

theorem wrapText_own_line_counterexample:
  "wt_lines (wrapText xayOptions) = [utf16 ''x a'', utf16 ''y'']
   \<and> utf16 ''a'' \<in> set (split_on isWhiteSpace (opt_text xayOptions))
   \<and> gt_wrap (measuredWidth xayOptions (utf16 ''a'')) (opt_wrapWidth xayOptions)
   \<and> utf16 ''a'' \<notin> set (wt_lines (wrapText xayOptions))"
  by (simp add: xay_lines)
     (simp add: measuredWidth_eq xayOptions_def xayMeasure_def utf16_def isWhiteSpace_def)

subsection \<open>Measuring a line\<close>

text \<open>
  Claim C6. When the platform reports no \<^verbatim>\<open>actualBoundingBoxLeft\<close>, \<open>measureLine\<close> returns
  the heuristic box: left and right are the advance width plus twice the font size, top
  and bottom are the line height plus twice the font size, and the width is the advance
  width. \<open>measureLine\<close> has no error result: apart from the call of the platform's
  \<^verbatim>\<open>measureText\<close> it consists of arithmetic only.
\<close>

theorem measureLine_fallback:
  assumes "actualBoundingBoxLeft (opt_context options (opt_text options)) = None"
  shows "measureLine options =
     \<lparr>lm_left = tm_width (opt_context options (opt_text options)) + 2 * opt_fontSize options,
      lm_right = tm_width (opt_context options (opt_text options)) + 2 * opt_fontSize options,
      lm_top = opt_lineHeight options + 2 * opt_fontSize options,
      lm_bottom = opt_lineHeight options + 2 * opt_fontSize options,
      lm_width = tm_width (opt_context options (opt_text options))\<rparr>"
  using assms by (simp add: measureLine_def Let_def)

theorem measureLine_fallback_witness:
  "actualBoundingBoxLeft (opt_context abcOptions (opt_text abcOptions)) = None
   \<and> measureLine abcOptions =
       \<lparr>lm_left = 320, lm_right = 320, lm_top = 32, lm_bottom = 32, lm_width = 300\<rparr>"
proof -
  have h: "actualBoundingBoxLeft (opt_context abcOptions (opt_text abcOptions)) = None"
    by (simp add: abcOptions_def abcMeasure_def)
  from measureLine_fallback[OF h] h show ?thesis
    by (simp add: abcOptions_def abcMeasure_def)
qed

subsection \<open>The aggregate bounding box\<close>

lemma Max_Cons2: "Max (set (a # b # ys)) = Max (set (max a b # ys))" for a :: real
  by (cases "ys = []") (simp_all add: max.assoc)

lemma foldl_box:
  "wt_left (foldl (\<lambda>wt e. appendWrappedTextLine wt e lh) wt xs)
     = Max (set (wt_left wt # lineLefts xs))
   \<and> wt_right (foldl (\<lambda>wt e. appendWrappedTextLine wt e lh) wt xs)
     = Max (set (wt_right wt # lineRights xs))
   \<and> wt_top (foldl (\<lambda>wt e. appendWrappedTextLine wt e lh) wt xs)
     = Max (set (wt_top wt # lineTops lh (length (wt_lines wt)) xs))
   \<and> wt_bottom (foldl (\<lambda>wt e. appendWrappedTextLine wt e lh) wt xs)
     = Max (set (wt_bottom wt # lineBottoms lh (length (wt_lines wt)) xs))"
proof (induction xs arbitrary: wt)
  case Nil
  show ?case by (simp add: lineLefts_def lineRights_def lineTops_def lineBottoms_def)
next
  case (Cons x xs)
  let ?wt = "appendWrappedTextLine wt x lh"
  have a: "wt_left ?wt = max (wt_left wt) (lm_left (snd x))"
    "wt_right ?wt = max (wt_right wt) (lm_right (snd x))"
    "wt_top ?wt = max (wt_top wt) (lm_top (snd x) - lh * real (length (wt_lines wt)))"
    "wt_bottom ?wt = max (wt_bottom wt) (lm_bottom (snd x) + lh * real (length (wt_lines wt)))"
    "length (wt_lines ?wt) = Suc (length (wt_lines wt))"
    by (simp_all add: appendWrappedTextLine_def)
  have l: "lineLefts (x # xs) = lm_left (snd x) # lineLefts xs"
    "lineRights (x # xs) = lm_right (snd x) # lineRights xs"
    "lineTops lh n (x # xs) = (lm_top (snd x) - lh * real n) # lineTops lh (Suc n) xs"
    "lineBottoms lh n (x # xs) = (lm_bottom (snd x) + lh * real n) # lineBottoms lh (Suc n) xs"
    for n
    by (simp_all add: lineLefts_def lineRights_def lineTops_def lineBottoms_def)
  show ?case
    unfolding foldl_Cons l Max_Cons2 using Cons.IH[of ?wt] unfolding a by blast
qed

text \<open>
  Claim C5, as amended. The fold starts from a box of zeros, so each bound of the aggregate
  box is the maximum of 0 and the contributions of the emitted lines: left and right of 0
  and the per-line left and right extents, top of 0 and \<open>line.top - lineIndex * lineHeight\<close>,
  bottom of 0 and \<open>line.bottom + lineIndex * lineHeight\<close>, where \<open>lineIndex\<close> is the zero-based
  position of the line in the whole output.
\<close>

theorem wrapText_box:
  "wt_left (wrapText options) = Max (set (0 # lineLefts (wrapLines options)))
   \<and> wt_right (wrapText options) = Max (set (0 # lineRights (wrapLines options)))
   \<and> wt_top (wrapText options)
       = Max (set (0 # lineTops (opt_lineHeight options) 0 (wrapLines options)))
   \<and> wt_bottom (wrapText options)
       = Max (set (0 # lineBottoms (opt_lineHeight options) 0 (wrapLines options)))"
  using foldl_box[of "opt_lineHeight options" emptyWrappedText "wrapLines options"]
  by (simp add: wrapText_def emptyWrappedText_def)

lemma inkOptions_lines:
  "wrapLines inkOptions =
     [(utf16 ''a'', \<lparr>lm_left = - 4, lm_right = 16, lm_top = 9, lm_bottom = 3, lm_width = 10\<rparr>)]"
  by (simp add: wrapLines_def wrapParagraph_def inkOptions_def inkMeasure_def measureLine_def
      trunc_def utf16_def isNewline_def)

text \<open>
  The claim as stated fails: a single line whose ink starts right of the text origin has
  the left extent \<open>-4\<close>, and the aggregate left bound is 0, not the maximum \<open>-4\<close> of the
  per-line left extents.
\<close>

theorem wrapText_box_counterexample:
  "lineLefts (wrapLines inkOptions) = [- 4]
   \<and> wt_left (wrapText inkOptions) = 0
   \<and> wt_left (wrapText inkOptions) \<noteq> Max (set (lineLefts (wrapLines inkOptions)))"
  by (simp add: wrapText_def inkOptions_lines lineLefts_def appendWrappedTextLine_def
      emptyWrappedText_def)

subsection \<open>Staleness of the cache\<close>

lemmas hello_defs =
  helloAttributes_def helloAttributes2_def helloRenderer_def world1_def black_def black2_def
  transparent_def zeroVector_def

text \<open>
  Claim C2, as amended. \<open>updateIfRequired\<close> compares the primitive fields by value and the
  object-typed fields (color, outlineColor, shadowColor, shadowOffset) by object identity.
  When all fifteen comparisons succeed it returns the same renderer instance with its
  cache, and constructs nothing. When any one of them fails, also for an object-typed
  field that is a distinct object with the same components, it returns a newly constructed
  renderer that carries the new attributes and has an empty cache.
\<close>

theorem updateIfRequired_identity:
  "(attr_text args = attr_text this \<and> fontFamily args = fontFamily this \<and>
    fontStyle args = fontStyle this \<and> bold args = bold this \<and>
    fontSize args = fontSize this \<and> textAlign args = textAlign this \<and>
    baseAlign args = baseAlign this \<and> lineHeight args = lineHeight this \<and>
    wrapWidth args = wrapWidth this \<and> outlineWidth args = outlineWidth this \<and>
    shadowBlurRadius args = shadowBlurRadius this \<and>
    color_ref (color args) = color_ref (color this) \<and>
    color_ref (outlineColor args) = color_ref (outlineColor this) \<and>
    color_ref (shadowColor args) = color_ref (shadowColor this) \<and>
    vector_ref (shadowOffset args) = vector_ref (shadowOffset this)
    \<longrightarrow> updateIfRequired this args w = (this, w))
   \<and> (attr_text args \<noteq> attr_text this \<or> fontFamily args \<noteq> fontFamily this \<or>
       fontStyle args \<noteq> fontStyle this \<or> bold args \<noteq> bold this \<or>
       fontSize args \<noteq> fontSize this \<or> textAlign args \<noteq> textAlign this \<or>
       baseAlign args \<noteq> baseAlign this \<or> lineHeight args \<noteq> lineHeight this \<or>
       wrapWidth args \<noteq> wrapWidth this \<or> outlineWidth args \<noteq> outlineWidth this \<or>
       shadowBlurRadius args \<noteq> shadowBlurRadius this \<or>
       color_ref (color args) \<noteq> color_ref (color this) \<or>
       color_ref (outlineColor args) \<noteq> color_ref (outlineColor this) \<or>
       color_ref (shadowColor args) \<noteq> color_ref (shadowColor this) \<or>
       vector_ref (shadowOffset args) \<noteq> vector_ref (shadowOffset this)
    \<longrightarrow> updateIfRequired this args w \<noteq> (this, w)
        \<and> cache (fst (updateIfRequired this args w)) = None
        \<and> renderer_ref (fst (updateIfRequired this args w)) = renderers w
        \<and> renderers (snd (updateIfRequired this args w)) = renderers w + 1
        \<and> created (snd (updateIfRequired this args w)) = created w
        \<and> drawn (snd (updateIfRequired this args w)) = drawn w
        \<and> attr_text (fst (updateIfRequired this args w)) = attr_text args
        \<and> fontFamily (fst (updateIfRequired this args w)) = fontFamily args
        \<and> fontStyle (fst (updateIfRequired this args w)) = fontStyle args
        \<and> bold (fst (updateIfRequired this args w)) = bold args
        \<and> fontSize (fst (updateIfRequired this args w)) = fontSize args
        \<and> textAlign (fst (updateIfRequired this args w)) = textAlign args
        \<and> baseAlign (fst (updateIfRequired this args w)) = baseAlign args
        \<and> lineHeight (fst (updateIfRequired this args w)) = lineHeight args
        \<and> wrapWidth (fst (updateIfRequired this args w)) = wrapWidth args
        \<and> color (fst (updateIfRequired this args w)) = color args
        \<and> outlineColor (fst (updateIfRequired this args w)) = outlineColor args
        \<and> outlineWidth (fst (updateIfRequired this args w)) = outlineWidth args
        \<and> shadowColor (fst (updateIfRequired this args w)) = shadowColor args
        \<and> shadowOffset (fst (updateIfRequired this args w)) = shadowOffset args
        \<and> shadowBlurRadius (fst (updateIfRequired this args w)) = shadowBlurRadius args)"
proof (intro conjI impI)
  assume "attr_text args = attr_text this \<and> fontFamily args = fontFamily this \<and>
    fontStyle args = fontStyle this \<and> bold args = bold this \<and>
    fontSize args = fontSize this \<and> textAlign args = textAlign this \<and>
    baseAlign args = baseAlign this \<and> lineHeight args = lineHeight this \<and>
    wrapWidth args = wrapWidth this \<and> outlineWidth args = outlineWidth this \<and>
    shadowBlurRadius args = shadowBlurRadius this \<and>
    color_ref (color args) = color_ref (color this) \<and>
    color_ref (outlineColor args) = color_ref (outlineColor this) \<and>
    color_ref (shadowColor args) = color_ref (shadowColor this) \<and>
    vector_ref (shadowOffset args) = vector_ref (shadowOffset this)"
  then have "unchanged args this"
    by (simp add: unchanged_def same_Color_def same_Vector_def)
  then show "updateIfRequired this args w = (this, w)"
    by (simp add: updateIfRequired_def)
next
  assume d: "attr_text args \<noteq> attr_text this \<or> fontFamily args \<noteq> fontFamily this \<or>
       fontStyle args \<noteq> fontStyle this \<or> bold args \<noteq> bold this \<or>
       fontSize args \<noteq> fontSize this \<or> textAlign args \<noteq> textAlign this \<or>
       baseAlign args \<noteq> baseAlign this \<or> lineHeight args \<noteq> lineHeight this \<or>
       wrapWidth args \<noteq> wrapWidth this \<or> outlineWidth args \<noteq> outlineWidth this \<or>
       shadowBlurRadius args \<noteq> shadowBlurRadius this \<or>
       color_ref (color args) \<noteq> color_ref (color this) \<or>
       color_ref (outlineColor args) \<noteq> color_ref (outlineColor this) \<or>
       color_ref (shadowColor args) \<noteq> color_ref (shadowColor this) \<or>
       vector_ref (shadowOffset args) \<noteq> vector_ref (shadowOffset this)"
  then have "\<not> unchanged args this"
    unfolding unchanged_def same_Color_def same_Vector_def by blast
  then have upd: "updateIfRequired this args w = new_TextRenderer args w"
    by (simp add: updateIfRequired_def)
  have w: "snd (new_TextRenderer args w :: 'c TextRenderer \<times> world) = w\<lparr>renderers := renderers w + 1\<rparr>"
    by (simp add: new_TextRenderer_def)
  have "renderers (snd (updateIfRequired this args w)) \<noteq> renderers w"
    unfolding upd w by simp
  then show "updateIfRequired this args w \<noteq> (this, w)" by auto
  show "cache (fst (updateIfRequired this args w)) = None"
    "renderer_ref (fst (updateIfRequired this args w)) = renderers w"
    "renderers (snd (updateIfRequired this args w)) = renderers w + 1"
    "created (snd (updateIfRequired this args w)) = created w"
    "drawn (snd (updateIfRequired this args w)) = drawn w"
    "attr_text (fst (updateIfRequired this args w)) = attr_text args"
    "fontFamily (fst (updateIfRequired this args w)) = fontFamily args"
    "fontStyle (fst (updateIfRequired this args w)) = fontStyle args"
    "bold (fst (updateIfRequired this args w)) = bold args"
    "fontSize (fst (updateIfRequired this args w)) = fontSize args"
    "textAlign (fst (updateIfRequired this args w)) = textAlign args"
    "baseAlign (fst (updateIfRequired this args w)) = baseAlign args"
    "lineHeight (fst (updateIfRequired this args w)) = lineHeight args"
    "wrapWidth (fst (updateIfRequired this args w)) = wrapWidth args"
    "color (fst (updateIfRequired this args w)) = color args"
    "outlineColor (fst (updateIfRequired this args w)) = outlineColor args"
    "outlineWidth (fst (updateIfRequired this args w)) = outlineWidth args"
    "shadowColor (fst (updateIfRequired this args w)) = shadowColor args"
    "shadowOffset (fst (updateIfRequired this args w)) = shadowOffset args"
    "shadowBlurRadius (fst (updateIfRequired this args w)) = shadowBlurRadius args"
    unfolding upd by (simp_all add: new_TextRenderer_def)
qed

theorem updateIfRequired_identity_witness:
  "color_ref (color helloAttributes) = color_ref (color helloRenderer)
   \<and> updateIfRequired helloRenderer helloAttributes world1 = (helloRenderer, world1)
   \<and> cache (fst (updateIfRequired helloRenderer helloAttributes world1)) \<noteq> None
   \<and> color_ref (color helloAttributes2) \<noteq> color_ref (color helloRenderer)
   \<and> updateIfRequired helloRenderer helloAttributes2 world1 \<noteq> (helloRenderer, world1)
   \<and> cache (fst (updateIfRequired helloRenderer helloAttributes2 world1)) = None
   \<and> renderer_ref (fst (updateIfRequired helloRenderer helloAttributes2 world1)) = renderers world1"
proof -
  have same: "updateIfRequired helloRenderer helloAttributes world1 = (helloRenderer, world1)"
    by (rule updateIfRequired_identity[THEN conjunct1, rule_format])
       (simp add: hello_defs)
  have d: "color_ref (color helloAttributes2) \<noteq> color_ref (color helloRenderer)"
    by (simp add: hello_defs)
  note t = updateIfRequired_identity[where args = helloAttributes2 and this = helloRenderer
      and w = world1, THEN conjunct2, rule_format]
  have "updateIfRequired helloRenderer helloAttributes2 world1 \<noteq> (helloRenderer, world1)
   \<and> cache (fst (updateIfRequired helloRenderer helloAttributes2 world1)) = None
   \<and> renderer_ref (fst (updateIfRequired helloRenderer helloAttributes2 world1)) = renderers world1"
    using t d by blast
  with same d show ?thesis by (simp add: hello_defs)
qed

text \<open>
  The claim as stated fails: the second snapshot is value-equal to the renderer's in every
  field, its colour being a distinct object with the same components, and
  \<open>updateIfRequired\<close> returns a new renderer whose cache is empty.
\<close>

theorem updateIfRequired_value_equal_counterexample:
  "value_equal helloAttributes2 helloRenderer
   \<and> cache helloRenderer \<noteq> None
   \<and> renderer_ref helloRenderer = 0
   \<and> renderer_ref (fst (updateIfRequired helloRenderer helloAttributes2 world1)) = 1
   \<and> cache (fst (updateIfRequired helloRenderer helloAttributes2 world1)) = None"
  by (simp add: value_equal_def value_equal_Color_def value_equal_Vector_def
      updateIfRequired_def unchanged_def same_Color_def new_TextRenderer_def hello_defs)

subsection \<open>Failure of a rebuild\<close>



lemma buildCache_no_context:
  "\<not> getContext P (created w) \<Longrightarrow> fst (buildCache P w this) = Inl NotNull"
  by (simp add: buildCache_def createElement_def Let_def)










subsection \<open>Rendering twice\<close>














subsection \<open>The extents of the bitmap\<close>






text \<open>
  The earlier revision of the class (renderer.ts) builds its bitmap without the outline
  margin and with a fixed margin of twice the blur radius on every side.
\<close>

lemma buildCache_extents:
  assumes "buildCache P w this = (Inr c, w1)"
  shows "(color_a (shadowColor this) = 0 \<longrightarrow>
            width (cache_canvas c) = wt_left (wrapped P this) + wt_right (wrapped P this)
            \<and> height (cache_canvas c) = wt_top (wrapped P this) + wt_bottom (wrapped P this)
            \<and> cache_left c = wt_left (wrapped P this)
            \<and> cache_top c = wt_top (wrapped P this))
       \<and> (color_a (shadowColor this) \<noteq> 0 \<longrightarrow>
            width (cache_canvas c)
              = wt_left (wrapped P this) + wt_right (wrapped P this) + shadowBlurRadius this * 4
            \<and> height (cache_canvas c)
              = wt_top (wrapped P this) + wt_bottom (wrapped P this) + shadowBlurRadius this * 4
            \<and> cache_left c = wt_left (wrapped P this) + shadowBlurRadius this * 2
            \<and> cache_top c = wt_top (wrapped P this) + shadowBlurRadius this * 2)"
  using assms
  by (auto simp: buildCache_def createElement_def Let_def split: if_splits)

end
